theory Spec2Isabelle
  imports Complex_Main "HOL-Library.Log_Nat"
begin

section \<open>Python strings\<close>

text \<open>
  A Python \<^verbatim>\<open>str\<close> is a sequence of Unicode code points, so a text is a list of
  code points here (the application translates Urdu, French, ...; a byte string would
  lose them).  \<open>lit\<close> embeds an ASCII literal of the source.
\<close>

type_synonym pystr = "nat list"

definition lit :: "string \<Rightarrow> pystr" where
  "lit s = map of_char s"

text \<open>
  \<^verbatim>\<open>str.isspace\<close> on one code point, as CPython decides it: the characters that
  \<^verbatim>\<open>str.strip()\<close> removes when it is called without an argument.
\<close>

definition py_isspace :: "nat \<Rightarrow> bool" where
  "py_isspace c \<longleftrightarrow>
     (9 \<le> c \<and> c \<le> 13) \<or> (28 \<le> c \<and> c \<le> 32) \<or> c = 133 \<or> c = 160 \<or> c = 5760 \<or>
     (8192 \<le> c \<and> c \<le> 8202) \<or> c = 8232 \<or> c = 8233 \<or> c = 8239 \<or> c = 8287 \<or>
     c = 12288"

definition py_strip :: "pystr \<Rightarrow> pystr" where
  "py_strip s = rev (dropWhile py_isspace (rev (dropWhile py_isspace s)))"

text \<open>\<^verbatim>\<open>str(n)\<close> for a non-negative integer: its decimal digits.\<close>

function str_nat :: "nat \<Rightarrow> pystr" where
  "str_nat n = (if n < 10 then [48 + n] else str_nat (n div 10) @ [48 + n mod 10])"
  by pat_completeness auto
termination
  by (relation "measure id") auto

declare str_nat.simps [simp del]

text \<open>\<^verbatim>\<open>x or d\<close> where \<open>x\<close> is \<^verbatim>\<open>None\<close> or a string: \<^verbatim>\<open>None\<close> and \<^verbatim>\<open>""\<close> are falsy.\<close>

definition py_or :: "pystr option \<Rightarrow> pystr \<Rightarrow> pystr" where
  "py_or x d = (case x of None \<Rightarrow> d | Some t \<Rightarrow> if t = [] then d else t)"

section \<open>Python's division of integers\<close>

text \<open>
  \<^verbatim>\<open>a / b\<close> on two integers is a floating-point number: the double nearest to the
  exact quotient, a tie going to the even significand.  A double is represented here by
  the rational number it denotes.

  \<open>round_half_even x d\<close> is the integer nearest to \<open>x / d\<close>, ties to even.
\<close>

definition round_half_even :: "nat \<Rightarrow> nat \<Rightarrow> nat" where
  "round_half_even x d =
     (let q = x div d; r = x mod d
      in if 2 * r < d then q
         else if d < 2 * r then q + 1
         else if even q then q else q + 1)"

text \<open>
  For a quotient \<open>a / b\<close> that is at most 1: the least \<open>k\<close> from which
  \<open>b \<le> a * 2 ^ k\<close>, that is, the exponent \<open>- k\<close> of the quotient.  The search stops
  at 1022, the least exponent of a normal double: below it the doubles keep the spacing
  they have there.
\<close>

function find_shift :: "nat \<Rightarrow> nat \<Rightarrow> nat \<Rightarrow> nat" where
  "find_shift a b k = (if b \<le> a * 2 ^ k \<or> 1022 \<le> k then k else find_shift a b (k + 1))"
  by pat_completeness auto
termination
  by (relation "measure (\<lambda>(a, b, k). 1022 - k)") auto

declare find_shift.simps [simp del]

text \<open>
  The quotient is scaled by a power of two so that its significand has 53 bits, rounded
  to an integer, and scaled back.  For \<open>b \<le> a\<close> the exponent is read off the bit
  lengths of \<open>a\<close> and \<open>b\<close>.  Python raises \<^verbatim>\<open>ZeroDivisionError\<close> for \<open>b = 0\<close> and
  \<^verbatim>\<open>OverflowError\<close> for a quotient beyond the largest double; the batch loop divides a
  row number by the number of rows, so it meets neither, and \<open>py_truediv\<close> does not
  model them (it is 0 for \<open>b = 0\<close>).
\<close>

definition py_truediv :: "nat \<Rightarrow> nat \<Rightarrow> rat" where
  "py_truediv a b =
     (if a = 0 \<or> b = 0 then 0
      else if a \<le> b then
        (let k = find_shift a b 0
         in of_nat (round_half_even (a * 2 ^ (52 + k)) b) / 2 ^ (52 + k))
      else
        (let d = floorlog 2 a - floorlog 2 b;
             e = (if b * 2 ^ d \<le> a then d else d - 1)
         in if e \<le> 52 then of_nat (round_half_even (a * 2 ^ (52 - e)) b) / 2 ^ (52 - e)
            else of_nat (round_half_even a (b * 2 ^ (e - 52))) * 2 ^ (e - 52)))"

section \<open>The translation provider and the environment of a run\<close>

text \<open>
  \<^verbatim>\<open>translator\<close> is the googletrans client: an external service.  Nothing in the
  application fixes what it answers, so it is a parameter: two operations over a hidden
  provider state \<open>'w\<close> (the network, quotas, the service itself), each of which returns
  either a value (\<open>Inr\<close>) or raises an exception (\<open>Inl\<close>, carrying the text that
  \<^verbatim>\<open>str(e)\<close> gives).  The exceptions of a provider call are instances of
  \<^verbatim>\<open>Exception\<close>.

  \<open>detect\<close> stands for \<^verbatim>\<open>translator.detect(text).lang\<close> and \<open>translate\<close> for
  \<^verbatim>\<open>translator.translate(text, src=src, dest=dest).text\<close>.
\<close>

record 'w provider =
  detect :: "pystr \<Rightarrow> 'w \<Rightarrow> (pystr + pystr) \<times> 'w"
  translate :: "pystr \<Rightarrow> pystr \<Rightarrow> pystr \<Rightarrow> 'w \<Rightarrow> (pystr + pystr) \<times> 'w"

text \<open>What the application did to the outside: provider calls and Streamlit output.\<close>

datatype call = Detect pystr | Translate pystr pystr pystr

datatype 'f ui =
    Error_box pystr
  | Success_box pystr
  | Info_box pystr
  | Subheader pystr
  | Code_block pystr
  | Progress_new nat pystr
  | Progress_set 'f pystr

record ('w, 'f) env =
  world :: 'w
  calls :: "call list"
  screen :: "'f ui list"

definition call_detect ::
  "'w provider \<Rightarrow> pystr \<Rightarrow> ('w, 'f) env \<Rightarrow> (pystr + pystr) \<times> ('w, 'f) env" where
  "call_detect P text e =
     (case detect P text (world e) of
        (r, w) \<Rightarrow> (r, e\<lparr>world := w, calls := calls e @ [Detect text]\<rparr>))"

definition call_translate ::
  "'w provider \<Rightarrow> pystr \<Rightarrow> pystr \<Rightarrow> pystr \<Rightarrow> ('w, 'f) env \<Rightarrow> (pystr + pystr) \<times> ('w, 'f) env" where
  "call_translate P text src dest e =
     (case translate P text src dest (world e) of
        (r, w) \<Rightarrow> (r, e\<lparr>world := w, calls := calls e @ [Translate text src dest]\<rparr>))"

definition show_ui :: "'f ui \<Rightarrow> ('w, 'f) env \<Rightarrow> ('w, 'f) env" where
  "show_ui u e = e\<lparr>screen := screen e @ [u]\<rparr>"

section \<open>perform_translation\<close>

text \<open>
  The body of the \<^verbatim>\<open>try\<close> block (lines 55 to 61): \<open>Inl\<close> is an exception on its way
  to the handler, \<open>Inr\<close> the returned pair.
\<close>

definition try_translation ::
  "'w provider \<Rightarrow> pystr \<Rightarrow> pystr \<Rightarrow> pystr \<Rightarrow> ('w, 'f) env \<Rightarrow>
     (pystr + pystr option \<times> pystr option) \<times> ('w, 'f) env" where
  "try_translation P text src dest e =
     (case (if src = lit ''auto'' then call_detect P text e else (Inr src, e)) of
        (Inl ex, e1) \<Rightarrow> (Inl ex, e1)
      | (Inr src1, e1) \<Rightarrow>
          (case call_translate P text src1 dest e1 of
             (Inl ex, e2) \<Rightarrow> (Inl ex, e2)
           | (Inr t, e2) \<Rightarrow> (Inr (Some t, Some src1), e2)))"

definition perform_translation ::
  "'w provider \<Rightarrow> pystr \<Rightarrow> pystr \<Rightarrow> pystr \<Rightarrow> ('w, 'f) env \<Rightarrow>
     (pystr option \<times> pystr option) \<times> ('w, 'f) env" where
  "perform_translation P text src dest e =
     (if text = [] \<or> py_strip text = [] then ((None, None), e)
      else
        (case try_translation P text src dest e of
           (Inr r, e1) \<Rightarrow> (r, e1)
         | (Inl ex, e1) \<Rightarrow>
             ((None, None), show_ui (Error_box (lit ''An error occurred: '' @ ex)) e1)))"

section \<open>The language catalog\<close>

text \<open>
  \<^verbatim>\<open>LANGUAGES\<close> is the table of googletrans, a dictionary from codes to names.  It is
  a parameter \<open>L\<close>: its items in iteration order, as (code, name) pairs.
\<close>

type_synonym catalog = "(pystr \<times> pystr) list"

datatype py_error = KeyError pystr

text \<open>\<^verbatim>\<open>d[k]\<close> raises \<^verbatim>\<open>KeyError\<close> on a missing key; \<^verbatim>\<open>d.get(k, default)\<close> does not.\<close>

definition getitem :: "(pystr \<rightharpoonup> pystr) \<Rightarrow> pystr \<Rightarrow> py_error + pystr" where
  "getitem d k = (case d k of None \<Rightarrow> Inl (KeyError k) | Some v \<Rightarrow> Inr v)"

definition dict_get :: "catalog \<Rightarrow> pystr \<Rightarrow> pystr \<Rightarrow> pystr" where
  "dict_get L k dflt = (case map_of L k of None \<Rightarrow> dflt | Some v \<Rightarrow> v)"

text \<open>\<^verbatim>\<open>{name: code for code, name in LANGUAGES.items()}\<close>: a later item overwrites.\<close>

definition name_to_code :: "catalog \<Rightarrow> (pystr \<rightharpoonup> pystr)" where
  "name_to_code L = fold (\<lambda>(code, name) d. d(name \<mapsto> code)) L Map.empty"

definition lang_values :: "catalog \<Rightarrow> pystr list" where
  "lang_values L = map snd L"

definition lang_options :: "catalog \<Rightarrow> pystr list" where
  "lang_options L = lit ''Automatic Detection'' # lang_values L"

definition lang_codes :: "catalog \<Rightarrow> (pystr \<rightharpoonup> pystr)" where
  "lang_codes L = (name_to_code L)(lit ''Automatic Detection'' \<mapsto> lit ''auto'')"

section \<open>Session state, swap and history\<close>

text \<open>
  A history entry is a dictionary with the keys \<^verbatim>\<open>original\<close>, \<^verbatim>\<open>translated\<close>,
  \<^verbatim>\<open>source\<close>, \<^verbatim>\<open>target\<close> and \<^verbatim>\<open>timestamp\<close>.
\<close>

record entry =
  entry_original :: pystr
  entry_translated :: pystr
  entry_source :: pystr
  entry_target :: pystr
  entry_timestamp :: pystr

record session =
  history :: "entry list"
  source_lang :: pystr
  target_lang :: pystr

text \<open>The state of a fresh session (lines 40 to 46).\<close>

definition session_init :: session where
  "session_init =
     \<lparr>history = [], source_lang = lit ''Automatic Detection'', target_lang = lit ''urdu''\<rparr>"

definition swap_languages :: "session \<Rightarrow> session" where
  "swap_languages s =
     (let source = source_lang s; target = target_lang s;
          s1 = s\<lparr>source_lang := target\<rparr>
      in if source \<noteq> lit ''Automatic Detection'' then s1\<lparr>target_lang := source\<rparr> else s1)"

text \<open>
  The three uses of \<^verbatim>\<open>st.session_state.history\<close>: \<^verbatim>\<open>.append(...)\<close> (line 145),
  the reversed table \<^verbatim>\<open>pd.DataFrame(history).iloc[::-1]\<close> (line 158) and the
  assignment of \<^verbatim>\<open>[]\<close> (line 161).
\<close>

definition history_append :: "entry \<Rightarrow> session \<Rightarrow> session" where
  "history_append x s = s\<lparr>history := history s @ [x]\<rparr>"

definition history_df :: "session \<Rightarrow> entry list" where
  "history_df s = rev (history s)"

definition history_clear :: "session \<Rightarrow> session" where
  "history_clear s = s\<lparr>history := []\<rparr>"

text \<open>
  The history part of a page run (lines 154 to 162).  It shows the table only when the
  history is not empty, and the button that clears it is part of that table's expander.
  The result is the table shown (if any) and the session afterwards.
\<close>

definition history_section :: "bool \<Rightarrow> session \<Rightarrow> entry list option \<times> session" where
  "history_section clear_clicked s =
     (if history s \<noteq> [] then
        (Some (history_df s), if clear_clicked then history_clear s else s)
      else (None, s))"

section \<open>The interactive translation\<close>

text \<open>
  A click on Translate (lines 126 to 151).  \<open>title\<close> is \<^verbatim>\<open>str.title\<close> and \<open>now\<close> what
  \<^verbatim>\<open>time.strftime\<close> returns at the click.  A \<^verbatim>\<open>KeyError\<close> of a catalog lookup leaves
  the function (\<open>Inl\<close>).  The test \<^verbatim>\<open>if translated_text:\<close> fails on \<^verbatim>\<open>None\<close> and
  on the empty string.  The spinner, which is on the page only while the call runs, is
  not recorded.
\<close>

definition translate_click ::
  "catalog \<Rightarrow> (pystr \<Rightarrow> pystr) \<Rightarrow> 'w provider \<Rightarrow> pystr \<Rightarrow> pystr \<Rightarrow>
     session \<times> ('w, 'f) env \<Rightarrow> py_error + session \<times> ('w, 'f) env" where
  "translate_click L title P input_text now se =
     (case se of (s, e) \<Rightarrow>
      (case getitem (lang_codes L) (source_lang s) of
         Inl err \<Rightarrow> Inl err
       | Inr src_code \<Rightarrow>
      (case getitem (lang_codes L) (target_lang s) of
         Inl err \<Rightarrow> Inl err
       | Inr dest_code \<Rightarrow>
      (case perform_translation P input_text src_code dest_code e of
         ((None, detected_src_code), e1) \<Rightarrow> Inr (s, e1)
       | ((Some translated_text, detected_src_code), e1) \<Rightarrow>
           if translated_text = [] then Inr (s, e1)
           else
             let detected_language_name =
                   title (case detected_src_code of
                            None \<Rightarrow> lit ''Unknown''
                          | Some c \<Rightarrow> dict_get L c (lit ''Unknown''));
                 e2 = show_ui (Success_box (lit ''Translation complete!'')) e1;
                 e3 = (if src_code = lit ''auto''
                       then show_ui (Info_box (lit ''Detected Source Language: **'' @
                                       detected_language_name @ lit ''**'')) e2
                       else e2);
                 e4 = show_ui (Subheader (lit ''Translated Text:'')) e3;
                 e5 = show_ui (Code_block translated_text) e4
             in Inr (history_append
                       \<lparr>entry_original = input_text, entry_translated = translated_text,
                        entry_source = source_lang s, entry_target = target_lang s,
                        entry_timestamp = now\<rparr> s,
                     e5)))))"

section \<open>The batch translation\<close>

text \<open>
  One round of the loop over \<^verbatim>\<open>enumerate(df[text_column])\<close> (lines 188 to 190).
  \<open>str_of\<close> is \<^verbatim>\<open>str\<close> on a cell of the table, \<open>truediv\<close> is Python's \<^verbatim>\<open>/\<close> on two
  integers (a parameter of the loop, with results of any type \<open>'f\<close>; \<open>py_truediv\<close>
  above is the division that Python performs) and \<open>n\<close> is \<^verbatim>\<open>len(df)\<close>, the number
  of rows of the column.
\<close>

definition row_label :: "nat \<Rightarrow> nat \<Rightarrow> pystr" where
  "row_label i n = lit ''Translating row '' @ str_nat i @ lit ''/'' @ str_nat n"

definition batch_step ::
  "'w provider \<Rightarrow> (nat \<Rightarrow> nat \<Rightarrow> 'f) \<Rightarrow> ('c \<Rightarrow> pystr) \<Rightarrow> pystr \<Rightarrow> nat \<Rightarrow>
     nat \<times> 'c \<Rightarrow> pystr list \<times> ('w, 'f) env \<Rightarrow> pystr list \<times> ('w, 'f) env" where
  "batch_step P truediv str_of dest_code n row acc =
     (case row of (i, text) \<Rightarrow>
      (case acc of (translations, e) \<Rightarrow>
      (case perform_translation P (str_of text) (lit ''auto'') dest_code e of
         ((translated, _), e1) \<Rightarrow>
           (translations @ [py_or translated (lit ''Error'')],
            show_ui (Progress_set (truediv (i + 1) n) (row_label (i + 1) n)) e1))))"

text \<open>
  Lines 184 to 190: the list of translations starts empty, the progress bar is created
  at 0, and the loop runs over the column.  The result is the list that becomes the new
  column of the table.
\<close>

definition translate_column ::
  "'w provider \<Rightarrow> (nat \<Rightarrow> nat \<Rightarrow> 'f) \<Rightarrow> ('c \<Rightarrow> pystr) \<Rightarrow> pystr \<Rightarrow> 'c list \<Rightarrow>
     ('w, 'f) env \<Rightarrow> pystr list \<times> ('w, 'f) env" where
  "translate_column P truediv str_of dest_code column e =
     fold (batch_step P truediv str_of dest_code (length column)) (enumerate 0 column)
       ([], show_ui (Progress_new 0 (lit ''Translating...'')) e)"

text \<open>
  The state of that loop (the list of translations and the environment) after its first
  \<open>k\<close> rounds; \<open>translate_column\<close> is its state after all of them.
\<close>

definition batch_after ::
  "'w provider \<Rightarrow> (nat \<Rightarrow> nat \<Rightarrow> 'f) \<Rightarrow> ('c \<Rightarrow> pystr) \<Rightarrow> pystr \<Rightarrow> 'c list \<Rightarrow>
     ('w, 'f) env \<Rightarrow> nat \<Rightarrow> pystr list \<times> ('w, 'f) env" where
  "batch_after P truediv str_of dest_code column e k =
     fold (batch_step P truediv str_of dest_code (length column))
       (take k (enumerate 0 column))
       ([], show_ui (Progress_new 0 (lit ''Translating...'')) e)"

text \<open>The calls of \<^verbatim>\<open>progress_bar.progress\<close> among what was shown, in order.\<close>

fun progress_reports :: "'f ui list \<Rightarrow> ('f \<times> pystr) list" where
  "progress_reports [] = []"
| "progress_reports (Progress_set v t # us) = (v, t) # progress_reports us"
| "progress_reports (u # us) = progress_reports us"

text \<open>
  The progress reports made during the run of \<open>translate_column\<close>: those on the
  progress bar that it creates.
\<close>

definition batch_reports ::
  "'w provider \<Rightarrow> (nat \<Rightarrow> nat \<Rightarrow> 'f) \<Rightarrow> ('c \<Rightarrow> pystr) \<Rightarrow> pystr \<Rightarrow> 'c list \<Rightarrow>
     ('w, 'f) env \<Rightarrow> ('f \<times> pystr) list" where
  "batch_reports P truediv str_of dest_code column e =
     drop (length (progress_reports (screen e)))
       (progress_reports (screen (snd (translate_column P truediv str_of dest_code column e))))"

section \<open>A session as a sequence of user actions\<close>

text \<open>
  What the user can do on the interactive page: choose in either select box (only the
  options offered can be chosen), press the swap button, press Translate on a text, and
  press Clear History.  An action whose script run ends in an exception leaves the
  session as it was.
\<close>

datatype action =
    Select_source pystr
  | Select_target pystr
  | Click_swap
  | Click_translate pystr pystr
  | Click_clear

definition step ::
  "catalog \<Rightarrow> (pystr \<Rightarrow> pystr) \<Rightarrow> 'w provider \<Rightarrow> action \<Rightarrow>
     session \<times> ('w, 'f) env \<Rightarrow> session \<times> ('w, 'f) env" where
  "step L title P a se =
     (case se of (s, e) \<Rightarrow>
      (case a of
         Select_source name \<Rightarrow>
           (if name \<in> set (lang_options L) then s\<lparr>source_lang := name\<rparr> else s, e)
       | Select_target name \<Rightarrow>
           (if name \<in> set (lang_values L) then s\<lparr>target_lang := name\<rparr> else s, e)
       | Click_swap \<Rightarrow> (swap_languages s, e)
       | Click_translate input_text now \<Rightarrow>
           (case translate_click L title P input_text now (s, e) of
              Inl err \<Rightarrow> (s, e)
            | Inr se1 \<Rightarrow> se1)
       | Click_clear \<Rightarrow> (snd (history_section True s), e)))"

definition run_session ::
  "catalog \<Rightarrow> (pystr \<Rightarrow> pystr) \<Rightarrow> 'w provider \<Rightarrow> action list \<Rightarrow>
     session \<times> ('w, 'f) env \<Rightarrow> session \<times> ('w, 'f) env" where
  "run_session L title P acts se = fold (step L title P) acts se"

text \<open>Every entry of the history has a translated text that is not empty.\<close>

definition history_ok :: "session \<Rightarrow> bool" where
  "history_ok s \<longleftrightarrow> (\<forall>x \<in> set (history s). entry_translated x \<noteq> [])"

section \<open>Concrete providers and tables for the examples\<close>

definition env0 :: "(unit, rat) env" where
  "env0 = \<lparr>world = (), calls = [], screen = []\<rparr>"

text \<open>A provider that detects English and translates every text to itself.\<close>

definition echo_provider :: "unit provider" where
  "echo_provider =
     \<lparr>detect = (\<lambda>text w. (Inr (lit ''en''), w)),
      translate = (\<lambda>text src dest w. (Inr text, w))\<rparr>"

text \<open>A provider whose detection raises, and one whose translation raises.\<close>

definition deaf_provider :: "unit provider" where
  "deaf_provider =
     \<lparr>detect = (\<lambda>text w. (Inl (lit ''timeout''), w)),
      translate = (\<lambda>text src dest w. (Inr text, w))\<rparr>"

definition mute_provider :: "unit provider" where
  "mute_provider =
     \<lparr>detect = (\<lambda>text w. (Inr (lit ''en''), w)),
      translate = (\<lambda>text src dest w. (Inl (lit ''timeout''), w))\<rparr>"

text \<open>A provider that gives the code \<^verbatim>\<open>"auto"\<close> as the detected language.\<close>

definition auto_provider :: "unit provider" where
  "auto_provider =
     \<lparr>detect = (\<lambda>text w. (Inr (lit ''auto''), w)),
      translate = (\<lambda>text src dest w. (Inr text, w))\<rparr>"

text \<open>
  A provider that knows two words of Spanish, and one whose translation is always the
  empty string.
\<close>

definition spanish_provider :: "unit provider" where
  "spanish_provider =
     \<lparr>detect = (\<lambda>text w. (Inr (lit ''en''), w)),
      translate = (\<lambda>text src dest w.
        (Inr (if text = lit ''hello'' then lit ''hola''
              else if text = lit ''world'' then lit ''mundo'' else text), w))\<rparr>"

definition silent_provider :: "unit provider" where
  "silent_provider =
     \<lparr>detect = (\<lambda>text w. (Inr (lit ''en''), w)),
      translate = (\<lambda>text src dest w. (Inr [], w))\<rparr>"

definition small_catalog :: catalog where
  "small_catalog = [(lit ''en'', lit ''english''), (lit ''fr'', lit ''french''),
                    (lit ''ur'', lit ''urdu'')]"

section \<open>Properties\<close>

subsection \<open>Blank texts\<close>

lemma py_strip_empty_iff: "py_strip s = [] \<longleftrightarrow> (\<forall>c \<in> set s. py_isspace c)"
proof
  assume "py_strip s = []"
  then have "dropWhile py_isspace (rev (dropWhile py_isspace s)) = []"
    by (simp add: py_strip_def)
  then have "\<forall>c \<in> set (dropWhile py_isspace s). py_isspace c"
    by simp
  moreover have "\<forall>c \<in> set (takeWhile py_isspace s). py_isspace c"
    by (auto dest: set_takeWhileD)
  moreover have "set s = set (takeWhile py_isspace s) \<union> set (dropWhile py_isspace s)"
    by (metis set_append takeWhile_dropWhile_id)
  ultimately show "\<forall>c \<in> set s. py_isspace c"
    by blast
next
  assume "\<forall>c \<in> set s. py_isspace c"
  then have d: "dropWhile py_isspace s = []"
    by simp
  show "py_strip s = []"
    unfolding py_strip_def d by simp
qed

text \<open>
  C4.  A text that is empty or made of whitespace only is answered with
  \<^verbatim>\<open>(None, None)\<close> at once, whatever the source and target codes: the environment comes
  back as it was, so no provider call was issued (neither \<open>detect\<close> nor \<open>translate\<close>),
  the provider state is untouched and nothing was shown.
\<close>

theorem blank_text_no_provider_call:
  assumes "text = [] \<or> (\<forall>c \<in> set text. py_isspace c)"
  shows "perform_translation P text src dest e = ((None, None), e)"
proof -
  from assms have "text = [] \<or> py_strip text = []"
    by (auto simp: py_strip_empty_iff)
  then show ?thesis
    by (simp add: perform_translation_def)
qed

theorem blank_text_no_provider_call_witness:
  "([32, 9, 10] = [] \<or> (\<forall>c \<in> set [32, 9, 10]. py_isspace c)) \<and>
   perform_translation echo_provider [32, 9, 10] (lit ''auto'') (lit ''ur'') env0
     = ((None, None), env0)"
proof -
  have blank: "[32, 9, 10] = [] \<or> (\<forall>c \<in> set [32, 9, 10]. py_isspace c)"
    by (simp add: py_isspace_def)
  from blank blank_text_no_provider_call [OF blank] show ?thesis
    by blast
qed

subsection \<open>Swapping the language pair\<close>

text \<open>
  C3, with the label as the program spells it.  For every session, \<open>swap_languages\<close>
  makes the old target the new source; the new target is the old source unless the old
  source is the label \<^verbatim>\<open>"Automatic Detection"\<close>, in which case the target keeps its
  value; the history is not touched.  In particular the pair
  (\<^verbatim>\<open>"Automatic Detection"\<close>, \<^verbatim>\<open>"french"\<close>) becomes (\<^verbatim>\<open>"french"\<close>, \<^verbatim>\<open>"french"\<close>).
\<close>

theorem swap_languages_rule:
  "source_lang (swap_languages s) = target_lang s \<and>
   target_lang (swap_languages s) =
     (if source_lang s = lit ''Automatic Detection'' then target_lang s else source_lang s) \<and>
   history (swap_languages s) = history s \<and>
   swap_languages
     \<lparr>history = h, source_lang = lit ''Automatic Detection'', target_lang = lit ''french''\<rparr>
     = \<lparr>history = h, source_lang = lit ''french'', target_lang = lit ''french''\<rparr>"
  by (simp add: swap_languages_def Let_def)

text \<open>
  The label is compared by string equality and the program writes it with capitals: the
  lower-case spelling is an ordinary source name to \<open>swap_languages\<close>, and becomes the
  target.
\<close>

theorem swap_lowercase_label_counterexample:
  "target_lang (swap_languages
     \<lparr>history = [], source_lang = lit ''automatic detection'',
      target_lang = lit ''french''\<rparr>) = lit ''automatic detection'' \<and>
   lit ''automatic detection'' \<noteq> lit ''french''"
  by (simp add: swap_languages_def Let_def lit_def)

subsection \<open>Looking a display name up\<close>

lemma dom_fold_names:
  "dom (fold (\<lambda>(code, name) d. d(name \<mapsto> code)) L d0) = dom d0 \<union> snd ` set L"
  by (induction L arbitrary: d0) (auto simp: rev_image_eqI)

lemma name_to_code_None: "name_to_code L name = None \<longleftrightarrow> name \<notin> snd ` set L"
proof -
  have "dom (name_to_code L) = snd ` set L"
    by (simp add: name_to_code_def dom_fold_names)
  then show ?thesis
    by (metis domIff)
qed

text \<open>
  C8, with the label as the program spells it.  Whatever the catalog,
  \<^verbatim>\<open>lang_codes["Automatic Detection"]\<close> is \<^verbatim>\<open>"auto"\<close>, and the lookup of a name that is
  neither that label nor a name of the catalog raises \<^verbatim>\<open>KeyError\<close> (the program's
  form of an unknown language).
\<close>

theorem lang_codes_lookup:
  "getitem (lang_codes L) (lit ''Automatic Detection'') = Inr (lit ''auto'') \<and>
   (name \<noteq> lit ''Automatic Detection'' \<and> name \<notin> snd ` set L \<longrightarrow>
      getitem (lang_codes L) name = Inl (KeyError name))"
  by (auto simp: getitem_def lang_codes_def name_to_code_None [THEN iffD2])

theorem lang_codes_lookup_witness:
  "getitem (lang_codes small_catalog) (lit ''Automatic Detection'') = Inr (lit ''auto'') \<and>
   getitem (lang_codes small_catalog) (lit ''klingon'') = Inl (KeyError (lit ''klingon''))"
proof -
  have "lit ''klingon'' \<noteq> lit ''Automatic Detection'' \<and>
        lit ''klingon'' \<notin> snd ` set small_catalog"
    by (simp add: small_catalog_def lit_def)
  with lang_codes_lookup [of small_catalog "lit ''klingon''"] show ?thesis
    by blast
qed

text \<open>
  The lower-case spelling is not a key of \<open>lang_codes\<close> (for a catalog that has no
  language of that name, as here): its lookup raises.  And the capitalised label, which
  is neither the lower-case spelling nor a name of the catalog, is found.
\<close>

theorem lang_codes_lowercase_label_counterexample:
  "getitem (lang_codes small_catalog) (lit ''automatic detection'')
     = Inl (KeyError (lit ''automatic detection'')) \<and>
   lit ''Automatic Detection'' \<noteq> lit ''automatic detection'' \<and>
   lit ''Automatic Detection'' \<notin> snd ` set small_catalog \<and>
   getitem (lang_codes small_catalog) (lit ''Automatic Detection'') = Inr (lit ''auto'')"
  by (simp add: getitem_def lang_codes_def name_to_code_def small_catalog_def lit_def)

subsection \<open>The history\<close>

lemma history_fold_append: "history (fold history_append xs s) = history s @ xs"
  by (induction xs arbitrary: s) (simp_all add: history_append_def)

text \<open>
  C7.  Appending puts the entry at the end of the log.  The table of the history is the
  log reversed, and showing it leaves the session as it was.  After clearing, the table
  is empty (and the page shows none); the Clear History button leaves an empty log.
  Entries appended one after the other to a cleared log are listed in reverse order of
  insertion, in particular three of them.
\<close>

theorem history_ledger:
  "history (history_append x s) = history s @ [x] \<and>
   history_df s = rev (history s) \<and>
   snd (history_section False s) = s \<and>
   fst (history_section False s) = (if history s = [] then None else Some (rev (history s))) \<and>
   history (snd (history_section True s)) = [] \<and>
   history_df (history_clear s) = [] \<and>
   fst (history_section clicked (history_clear s)) = None \<and>
   history_df (fold history_append xs (history_clear s)) = rev xs \<and>
   history_df (history_append c (history_append b (history_append a (history_clear s))))
     = [c, b, a]"
  by (simp add: history_fold_append history_df_def history_section_def history_clear_def
      history_append_def)

subsection \<open>Detection, translation and provider failures\<close>

lemma py_strip_Nil [simp]: "py_strip [] = []"
  by (simp add: py_strip_def)

lemma perform_translation_nonblank:
  "py_strip text \<noteq> [] \<Longrightarrow>
   perform_translation P text src dest e =
     (case try_translation P text src dest e of
        (Inr r, e1) \<Rightarrow> (r, e1)
      | (Inl ex, e1) \<Rightarrow>
          ((None, None), show_ui (Error_box (lit ''An error occurred: '' @ ex)) e1))"
  by (auto simp: perform_translation_def)

text \<open>
  \<open>perform_translation\<close> returns on every input and for every provider: either
  \<^verbatim>\<open>(None, None)\<close> or a translated text with its source code.
\<close>

lemma perform_translation_returns:
  "fst (perform_translation P text src dest e) = (None, None) \<or>
   (\<exists>t s. fst (perform_translation P text src dest e) = (Some t, Some s))"
  by (auto simp: perform_translation_def try_translation_def call_detect_def
      call_translate_def split: prod.splits sum.splits)

lemma hi_nonblank: "py_strip (lit ''hi'') \<noteq> []"
  by (simp add: py_strip_def py_isspace_def lit_def)

text \<open>
  C2, for a text that is not blank.  With the source code \<^verbatim>\<open>"auto"\<close>, and a text that
  is not empty after trimming, \<open>perform_translation\<close> calls \<open>detect\<close> on the text first.
  If that raises, the result is \<^verbatim>\<open>(None, None)\<close>, the error is shown and \<open>translate\<close> is
  not called.  If it answers the code \<open>d\<close>, \<open>translate\<close> is called next with \<open>d\<close> as the
  source, and when that succeeds the result is the provider's translation together with
  \<open>d\<close> (which is \<^verbatim>\<open>"auto"\<close> only if the provider itself answered so).
\<close>

theorem auto_detect_then_translate:
  assumes "py_strip text \<noteq> []"
  shows
    "(\<forall>ex w1. detect P text (world e) = (Inl ex, w1) \<longrightarrow>
        perform_translation P text (lit ''auto'') dest e =
          ((None, None),
           e\<lparr>world := w1, calls := calls e @ [Detect text],
             screen := screen e @ [Error_box (lit ''An error occurred: '' @ ex)]\<rparr>)) \<and>
     (\<forall>d w1 t w2. detect P text (world e) = (Inr d, w1) \<and>
                   translate P text d dest w1 = (Inr t, w2) \<longrightarrow>
        perform_translation P text (lit ''auto'') dest e =
          ((Some t, Some d),
           e\<lparr>world := w2, calls := calls e @ [Detect text, Translate text d dest]\<rparr>))"
  using assms
  by (simp add: perform_translation_nonblank try_translation_def call_detect_def
      call_translate_def show_ui_def)

theorem auto_detect_then_translate_witness:
  "py_strip (lit ''hi'') \<noteq> [] \<and>
   perform_translation deaf_provider (lit ''hi'') (lit ''auto'') (lit ''ur'') env0 =
     ((None, None),
      \<lparr>world = (), calls = [Detect (lit ''hi'')],
       screen = [Error_box (lit ''An error occurred: '' @ lit ''timeout'')]\<rparr>) \<and>
   perform_translation echo_provider (lit ''hi'') (lit ''auto'') (lit ''ur'') env0 =
     ((Some (lit ''hi''), Some (lit ''en'')),
      \<lparr>world = (),
       calls = [Detect (lit ''hi''), Translate (lit ''hi'') (lit ''en'') (lit ''ur'')],
       screen = []\<rparr>)"
proof -
  have "detect deaf_provider (lit ''hi'') (world env0) = (Inl (lit ''timeout''), ())"
    by (simp add: deaf_provider_def)
  with auto_detect_then_translate [OF hi_nonblank, of deaf_provider env0 "lit ''ur''"]
  have deaf: "perform_translation deaf_provider (lit ''hi'') (lit ''auto'') (lit ''ur'') env0 =
     ((None, None),
      env0\<lparr>world := (), calls := calls env0 @ [Detect (lit ''hi'')],
        screen := screen env0 @ [Error_box (lit ''An error occurred: '' @ lit ''timeout'')]\<rparr>)"
    by blast
  have "detect echo_provider (lit ''hi'') (world env0) = (Inr (lit ''en''), ()) \<and>
        translate echo_provider (lit ''hi'') (lit ''en'') (lit ''ur'') () = (Inr (lit ''hi''), ())"
    by (simp add: echo_provider_def)
  with auto_detect_then_translate [OF hi_nonblank, of echo_provider env0 "lit ''ur''"]
  have echo: "perform_translation echo_provider (lit ''hi'') (lit ''auto'') (lit ''ur'') env0 =
     ((Some (lit ''hi''), Some (lit ''en'')),
      env0\<lparr>world := (),
        calls := calls env0 @ [Detect (lit ''hi''), Translate (lit ''hi'') (lit ''en'') (lit ''ur'')]\<rparr>)"
    by blast
  from hi_nonblank deaf echo show ?thesis
    by (simp add: env0_def)
qed

text \<open>
  A text of one space is not empty, yet it is blank: no call is issued for it.  And a
  provider that answers \<^verbatim>\<open>"auto"\<close> as the detected code gets \<^verbatim>\<open>"auto"\<close> back as the
  source of the result.
\<close>

theorem auto_detect_counterexample:
  "lit '' '' \<noteq> [] \<and>
   perform_translation echo_provider (lit '' '') (lit ''auto'') (lit ''ur'') env0
     = ((None, None), env0) \<and>
   calls env0 = [] \<and>
   fst (perform_translation auto_provider (lit ''hi'') (lit ''auto'') (lit ''ur'') env0)
     = (Some (lit ''hi''), Some (lit ''auto''))"
  by (simp add: perform_translation_def try_translation_def call_detect_def call_translate_def
      echo_provider_def auto_provider_def env0_def lit_def py_strip_def py_isspace_def)

text \<open>
  C5.  Whenever a provider call that \<open>perform_translation\<close> makes raises (the detection
  of an \<^verbatim>\<open>"auto"\<close> source, the translation after a detection, or the translation of a
  given source), the exception is caught: \<open>perform_translation\<close> returns
  \<^verbatim>\<open>(None, None)\<close> and has shown the error message, built from the exception's text.
  No exception leaves the function (\<open>perform_translation_returns\<close>).
\<close>

theorem provider_failure_is_reported:
  assumes "py_strip text \<noteq> []"
    and "(src = lit ''auto'' \<and> detect P text (world e) = (Inl ex, w)) \<or>
         (src = lit ''auto'' \<and>
            (\<exists>d w1. detect P text (world e) = (Inr d, w1) \<and>
                    translate P text d dest w1 = (Inl ex, w))) \<or>
         (src \<noteq> lit ''auto'' \<and> translate P text src dest (world e) = (Inl ex, w))"
  shows "fst (perform_translation P text src dest e) = (None, None) \<and>
         world (snd (perform_translation P text src dest e)) = w \<and>
         screen (snd (perform_translation P text src dest e)) =
           screen e @ [Error_box (lit ''An error occurred: '' @ ex)]"
  using assms
  by (auto simp: perform_translation_nonblank try_translation_def call_detect_def
      call_translate_def show_ui_def)

theorem provider_failure_is_reported_witness:
  "py_strip (lit ''hi'') \<noteq> [] \<and>
   detect deaf_provider (lit ''hi'') (world env0) = (Inl (lit ''timeout''), ()) \<and>
   fst (perform_translation deaf_provider (lit ''hi'') (lit ''auto'') (lit ''ur'') env0)
     = (None, None) \<and>
   screen (snd (perform_translation deaf_provider (lit ''hi'') (lit ''auto'') (lit ''ur'') env0))
     = [Error_box (lit ''An error occurred: '' @ lit ''timeout'')] \<and>
   lit ''en'' \<noteq> lit ''auto'' \<and>
   translate mute_provider (lit ''hi'') (lit ''en'') (lit ''ur'') (world env0)
     = (Inl (lit ''timeout''), ()) \<and>
   fst (perform_translation mute_provider (lit ''hi'') (lit ''en'') (lit ''ur'') env0)
     = (None, None) \<and>
   screen (snd (perform_translation mute_provider (lit ''hi'') (lit ''en'') (lit ''ur'') env0))
     = [Error_box (lit ''An error occurred: '' @ lit ''timeout'')]"
proof -
  have d: "detect deaf_provider (lit ''hi'') (world env0) = (Inl (lit ''timeout''), ())"
    by (simp add: deaf_provider_def)
  have n: "lit ''en'' \<noteq> lit ''auto''"
    by (simp add: lit_def)
  have t: "translate mute_provider (lit ''hi'') (lit ''en'') (lit ''ur'') (world env0)
             = (Inl (lit ''timeout''), ())"
    by (simp add: mute_provider_def)
  have s: "screen env0 = []"
    by (simp add: env0_def)
  from d
    provider_failure_is_reported [OF hi_nonblank,
      of "lit ''auto''" deaf_provider env0 "lit ''timeout''" "()" "lit ''ur''"]
  have deaf:
    "fst (perform_translation deaf_provider (lit ''hi'') (lit ''auto'') (lit ''ur'') env0)
       = (None, None) \<and>
     screen (snd (perform_translation deaf_provider (lit ''hi'') (lit ''auto'') (lit ''ur'') env0))
       = screen env0 @ [Error_box (lit ''An error occurred: '' @ lit ''timeout'')]"
    by blast
  from n t
    provider_failure_is_reported [OF hi_nonblank,
      of "lit ''en''" mute_provider env0 "lit ''timeout''" "()" "lit ''ur''"]
  have mute:
    "fst (perform_translation mute_provider (lit ''hi'') (lit ''en'') (lit ''ur'') env0)
       = (None, None) \<and>
     screen (snd (perform_translation mute_provider (lit ''hi'') (lit ''en'') (lit ''ur'') env0))
       = screen env0 @ [Error_box (lit ''An error occurred: '' @ lit ''timeout'')]"
    by blast
  from hi_nonblank d n t deaf mute show ?thesis
    unfolding s by simp
qed

text \<open>
  C9, for a text that is not blank and a code other than \<^verbatim>\<open>"auto"\<close>.  When the source
  and the target are the same code and the provider's \<open>translate\<close> gives the text back,
  the result is that text with that code, after this one provider call.
\<close>

theorem identity_translation:
  assumes "py_strip text \<noteq> []" and "code \<noteq> lit ''auto''"
    and "translate P text code code (world e) = (Inr text, w)"
  shows "perform_translation P text code code e =
           ((Some text, Some code),
            e\<lparr>world := w, calls := calls e @ [Translate text code code]\<rparr>)"
  using assms
  by (simp add: perform_translation_nonblank try_translation_def call_translate_def)

theorem identity_translation_witness:
  "py_strip (lit ''hi'') \<noteq> [] \<and> lit ''en'' \<noteq> lit ''auto'' \<and>
   translate echo_provider (lit ''hi'') (lit ''en'') (lit ''en'') (world env0)
     = (Inr (lit ''hi''), ()) \<and>
   perform_translation echo_provider (lit ''hi'') (lit ''en'') (lit ''en'') env0 =
     ((Some (lit ''hi''), Some (lit ''en'')),
      \<lparr>world = (), calls = [Translate (lit ''hi'') (lit ''en'') (lit ''en'')], screen = []\<rparr>)"
proof -
  have n: "lit ''en'' \<noteq> lit ''auto''"
    by (simp add: lit_def)
  have t: "translate echo_provider (lit ''hi'') (lit ''en'') (lit ''en'') (world env0)
             = (Inr (lit ''hi''), ())"
    by (simp add: echo_provider_def)
  from hi_nonblank n t identity_translation [OF hi_nonblank n t] show ?thesis
    by (simp add: env0_def)
qed

text \<open>
  With the echoing provider: a text of one space is not empty and yields
  \<^verbatim>\<open>(None, None)\<close>; and with \<^verbatim>\<open>"auto"\<close> as both codes the source of the result is the
  detected code, not \<^verbatim>\<open>"auto"\<close>.
\<close>

theorem identity_translation_counterexample:
  "lit '' '' \<noteq> [] \<and>
   fst (perform_translation echo_provider (lit '' '') (lit ''en'') (lit ''en'') env0)
     = (None, None) \<and>
   fst (perform_translation echo_provider (lit ''hi'') (lit ''auto'') (lit ''auto'') env0)
     = (Some (lit ''hi''), Some (lit ''en'')) \<and>
   lit ''en'' \<noteq> lit ''auto''"
  by (simp add: perform_translation_def try_translation_def call_detect_def call_translate_def
      echo_provider_def env0_def lit_def py_strip_def py_isspace_def)

subsection \<open>The batch loop\<close>

lemma batch_step_fst:
  "fst (batch_step P truediv str_of dest n (i, c) acc) =
     fst acc @ [py_or (fst (fst (perform_translation P (str_of c) (lit ''auto'') dest (snd acc))))
                  (lit ''Error'')]"
  by (simp add: batch_step_def split: prod.splits)

lemma batch_fold_length:
  "length (fst (fold (batch_step P truediv str_of dest n) rows acc)) =
     length (fst acc) + length rows"
proof (induction rows arbitrary: acc)
  case Nil
  then show ?case by simp
next
  case (Cons row rows)
  obtain i c where row: "row = (i, c)"
    by (cases row)
  show ?case
    by (simp add: Cons.IH row batch_step_fst)
qed

lemma batch_fold_prefix:
  "take (length (fst acc)) (fst (fold (batch_step P truediv str_of dest n) rows acc)) = fst acc"
proof (induction rows arbitrary: acc)
  case Nil
  then show ?case by simp
next
  case (Cons row rows)
  obtain i c where row: "row = (i, c)"
    by (cases row)
  let ?acc1 = "batch_step P truediv str_of dest n (i, c) acc"
  have "take (length (fst ?acc1)) (fst (fold (batch_step P truediv str_of dest n) rows ?acc1))
          = fst ?acc1"
    by (rule Cons.IH)
  then have "take (length (fst acc))
               (take (length (fst ?acc1)) (fst (fold (batch_step P truediv str_of dest n) rows ?acc1)))
             = take (length (fst acc)) (fst ?acc1)"
    by simp
  then show ?case
    by (simp add: row batch_step_fst min_def)
qed

lemma batch_after_Suc:
  assumes "k < length column"
  shows "batch_after P truediv str_of dest column e (Suc k) =
           batch_step P truediv str_of dest (length column) (k, column ! k)
             (batch_after P truediv str_of dest column e k)"
proof -
  from assms have "take (Suc k) (enumerate 0 column) =
      take k (enumerate 0 column) @ [(k, column ! k)]"
    by (simp add: take_Suc_conv_app_nth nth_enumerate_eq)
  then show ?thesis
    by (simp add: batch_after_def)
qed

lemma batch_after_length:
  "k \<le> length column \<Longrightarrow>
   length (fst (batch_after P truediv str_of dest column e k)) = k"
  by (simp add: batch_after_def batch_fold_length)

lemma batch_after_drop:
  "translate_column P truediv str_of dest column e =
     fold (batch_step P truediv str_of dest (length column)) (drop k (enumerate 0 column))
       (batch_after P truediv str_of dest column e k)"
proof -
  have "enumerate 0 column = take k (enumerate 0 column) @ drop k (enumerate 0 column)"
    by simp
  then have "fold (batch_step P truediv str_of dest (length column)) (enumerate 0 column) =
     fold (batch_step P truediv str_of dest (length column)) (drop k (enumerate 0 column)) \<circ>
     fold (batch_step P truediv str_of dest (length column)) (take k (enumerate 0 column))"
    by (metis fold_append)
  then show ?thesis
    by (simp add: translate_column_def batch_after_def)
qed

lemma batch_nth:
  assumes "i < length column"
  shows "fst (translate_column P truediv str_of dest column e) ! i =
           py_or (fst (fst (perform_translation P (str_of (column ! i)) (lit ''auto'') dest
                              (snd (batch_after P truediv str_of dest column e i)))))
             (lit ''Error'')"
proof -
  let ?after = "batch_after P truediv str_of dest column e"
  let ?out = "fst (translate_column P truediv str_of dest column e)"
  from assms have len: "length (fst (?after (Suc i))) = Suc i"
    by (simp add: batch_after_length)
  have "take (length (fst (?after (Suc i)))) ?out = fst (?after (Suc i))"
    unfolding batch_after_drop [of P truediv str_of dest column e "Suc i"]
    by (rule batch_fold_prefix)
  then have "take (Suc i) ?out = fst (?after (Suc i))"
    by (simp only: len)
  then have "?out ! i = fst (?after (Suc i)) ! i"
    by (metis lessI nth_take)
  also from assms have "\<dots> =
      (fst (?after i) @
        [py_or (fst (fst (perform_translation P (str_of (column ! i)) (lit ''auto'') dest
                            (snd (?after i))))) (lit ''Error'')]) ! i"
    by (simp add: batch_after_Suc batch_step_fst)
  also from assms have "\<dots> =
      py_or (fst (fst (perform_translation P (str_of (column ! i)) (lit ''auto'') dest
                         (snd (?after i))))) (lit ''Error'')"
    by (simp add: batch_after_length nth_append)
  finally show ?thesis .
qed

text \<open>
  C1.  For every column and every target code, the list of translations has one element
  per row of the column, and the element at index \<open>i\<close> is what
  \<open>perform_translation\<close> returned for cell \<open>i\<close> (converted to text, with the source
  code \<^verbatim>\<open>"auto"\<close>, in the environment left by the rows before it), replaced by
  \<^verbatim>\<open>"Error"\<close> when it is \<^verbatim>\<open>None\<close> or empty.  So a row for which
  \<open>perform_translation\<close> returned \<^verbatim>\<open>None\<close> is recorded as \<^verbatim>\<open>"Error"\<close>, and the rows
  after it are processed all the same.
\<close>

theorem batch_one_outcome_per_row:
  "length (fst (translate_column P truediv str_of dest column e)) = length column \<and>
   (\<forall>i < length column.
      fst (translate_column P truediv str_of dest column e) ! i =
        py_or (fst (fst (perform_translation P (str_of (column ! i)) (lit ''auto'') dest
                           (snd (batch_after P truediv str_of dest column e i)))))
          (lit ''Error'') \<and>
      (fst (fst (perform_translation P (str_of (column ! i)) (lit ''auto'') dest
                   (snd (batch_after P truediv str_of dest column e i)))) = None \<longrightarrow>
       fst (translate_column P truediv str_of dest column e) ! i = lit ''Error''))"
proof -
  have "length (fst (translate_column P truediv str_of dest column e)) = length column"
    by (simp add: translate_column_def batch_fold_length)
  moreover have "\<forall>i < length column.
      fst (translate_column P truediv str_of dest column e) ! i =
        py_or (fst (fst (perform_translation P (str_of (column ! i)) (lit ''auto'') dest
                           (snd (batch_after P truediv str_of dest column e i)))))
          (lit ''Error'')"
    by (simp add: batch_nth)
  ultimately show ?thesis
    by (simp add: py_or_def)
qed


theorem batch_one_outcome_per_row_witness:
  "length (fst (translate_column spanish_provider py_truediv id (lit ''es'')
                  [lit ''hello'', [], lit ''world''] env0)) = 3 \<and>
   (1::nat) < length [lit ''hello'', [], lit ''world''] \<and>
   fst (fst (perform_translation spanish_provider
               (id ([lit ''hello'', [], lit ''world''] ! 1)) (lit ''auto'') (lit ''es'')
               (snd (batch_after spanish_provider py_truediv id (lit ''es'')
                       [lit ''hello'', [], lit ''world''] env0 1)))) = None \<and>
   fst (translate_column spanish_provider py_truediv id (lit ''es'')
          [lit ''hello'', [], lit ''world''] env0) ! 1 = lit ''Error'' \<and>
   fst (translate_column spanish_provider py_truediv id (lit ''es'')
          [lit ''hello'', [], lit ''world''] env0) ! 2 = lit ''mundo''"
proof -
  let ?column = "[lit ''hello'', [], lit ''world'']"
  let ?out = "fst (translate_column spanish_provider py_truediv id (lit ''es'') ?column env0)"
  let ?after = "batch_after spanish_provider py_truediv id (lit ''es'') ?column env0"
  note rows = batch_one_outcome_per_row
    [of spanish_provider py_truediv id "lit ''es''" ?column env0]
  have blank: "fst (fst (perform_translation spanish_provider (id (?column ! 1)) (lit ''auto'')
                           (lit ''es'') (snd (?after 1)))) = None"
    by (simp add: perform_translation_def)
  have world: "fst (fst (perform_translation spanish_provider (id (?column ! 2)) (lit ''auto'')
                           (lit ''es'') (snd (?after 2)))) = Some (lit ''mundo'')"
    by (simp add: perform_translation_def try_translation_def call_detect_def
        call_translate_def spanish_provider_def lit_def py_strip_def py_isspace_def)
  from rows have "length ?out = 3"
    by simp
  moreover from rows blank have "?out ! 1 = lit ''Error''"
    by (simp add: py_or_def)
  moreover from rows world have "?out ! 2 = lit ''mundo''"
    by (simp add: py_or_def lit_def)
  ultimately show ?thesis
    using blank by simp
qed

subsection \<open>Progress\<close>

lemma progress_reports_append:
  "progress_reports (us @ vs) = progress_reports us @ progress_reports vs"
  by (induction us rule: progress_reports.induct) simp_all

lemma perform_translation_progress:
  "progress_reports (screen (snd (perform_translation P text src dest e))) =
     progress_reports (screen e)"
  by (simp add: perform_translation_def try_translation_def call_detect_def
      call_translate_def show_ui_def progress_reports_append split: prod.splits sum.splits)

lemma batch_step_progress:
  "progress_reports (screen (snd (batch_step P truediv str_of dest n (i, c) acc))) =
     progress_reports (screen (snd acc)) @ [(truediv (i + 1) n, row_label (i + 1) n)]"
proof -
  obtain ts e where acc: "acc = (ts, e)"
    by (cases acc)
  obtain r e1 where pt: "perform_translation P (str_of c) (lit ''auto'') dest e = (r, e1)"
    by (cases "perform_translation P (str_of c) (lit ''auto'') dest e")
  have "progress_reports (screen e1) = progress_reports (screen e)"
    using perform_translation_progress [of P "str_of c" "lit ''auto''" dest e] pt by simp
  then show ?thesis
    by (simp add: batch_step_def acc pt show_ui_def progress_reports_append split: prod.splits)
qed

lemma batch_fold_progress:
  "progress_reports (screen (snd (fold (batch_step P truediv str_of dest n) rows acc))) =
     progress_reports (screen (snd acc)) @
     map (\<lambda>i. (truediv (i + 1) n, row_label (i + 1) n)) (map fst rows)"
proof (induction rows arbitrary: acc)
  case Nil
  then show ?case by simp
next
  case (Cons row rows)
  obtain i c where row: "row = (i, c)"
    by (cases row)
  show ?case
    by (simp add: Cons.IH row batch_step_progress)
qed

lemma translate_column_progress:
  "progress_reports (screen (snd (translate_column P truediv str_of dest column e))) =
     progress_reports (screen e) @
     map (\<lambda>i. (truediv i (length column), row_label i (length column)))
       [1..<Suc (length column)]"
proof -
  have "map (\<lambda>i. (truediv (i + 1) (length column), row_label (i + 1) (length column)))
          [0..<length column] =
        map (\<lambda>i. (truediv i (length column), row_label i (length column)))
          (map Suc [0..<length column])"
    by simp
  also have "\<dots> = map (\<lambda>i. (truediv i (length column), row_label i (length column)))
          [1..<Suc (length column)]"
    by (simp only: map_Suc_upt One_nat_def)
  finally show ?thesis
    by (simp add: translate_column_def batch_fold_progress show_ui_def
        progress_reports_append map_fst_enumerate)
qed

lemma batch_reports_eq:
  "batch_reports P truediv str_of dest column e =
     map (\<lambda>i. (truediv i (length column), row_label i (length column)))
       [1..<Suc (length column)]"
  by (simp add: batch_reports_def translate_column_progress)

subsection \<open>The floating-point quotient\<close>

lemma find_shift_le: "k \<le> 1022 \<Longrightarrow> find_shift a b k \<le> 1022"
proof (induction a b k rule: find_shift.induct)
  case (1 a b k)
  then show ?case
    by (subst find_shift.simps) auto
qed

lemma find_shift_reached:
  "find_shift a b k < 1022 \<Longrightarrow> b \<le> a * 2 ^ find_shift a b k"
proof (induction a b k rule: find_shift.induct)
  case (1 a b k)
  show ?case
  proof (cases "b \<le> a * 2 ^ k \<or> 1022 \<le> k")
    case True
    with "1.prems" show ?thesis
      by (subst (asm) find_shift.simps, subst find_shift.simps) auto
  next
    case False
    with "1.prems" have "find_shift a b (k + 1) < 1022"
      by (subst (asm) find_shift.simps) simp
    with False "1.IH" have "b \<le> a * 2 ^ find_shift a b (k + 1)"
      by simp
    with False show ?thesis
      by (subst find_shift.simps) simp
  qed
qed

lemma find_shift_least:
  "k \<le> i \<Longrightarrow> i < find_shift a b k \<Longrightarrow> a * 2 ^ i < b"
proof (induction a b k rule: find_shift.induct)
  case (1 a b k)
  show ?case
  proof (cases "b \<le> a * 2 ^ k \<or> 1022 \<le> k")
    case True
    then have "find_shift a b k = k"
      by (subst find_shift.simps) simp
    with "1.prems" show ?thesis
      by simp
  next
    case False
    then have step: "find_shift a b k = find_shift a b (k + 1)"
      by (subst find_shift.simps) simp
    show ?thesis
    proof (cases "i = k")
      case True
      with False show ?thesis
        by simp
    next
      case False
      with "1.prems" have "k + 1 \<le> i"
        by simp
      with \<open>\<not> (b \<le> a * 2 ^ k \<or> 1022 \<le> k)\<close> "1.IH" "1.prems" step show ?thesis
        by simp
    qed
  qed
qed

lemma round_half_even_lower: "0 < d \<Longrightarrow> c * d \<le> x \<Longrightarrow> c \<le> round_half_even x d"
proof -
  assume d: "0 < d" and cx: "c * d \<le> x"
  then have "c \<le> x div d"
    by (simp add: less_eq_div_iff_mult_less_eq)
  then show ?thesis
    by (simp add: round_half_even_def Let_def)
qed

lemma round_half_even_upper: "0 < d \<Longrightarrow> x \<le> c * d \<Longrightarrow> round_half_even x d \<le> c"
proof -
  assume d: "0 < d" and xc: "x \<le> c * d"
  show ?thesis
  proof (cases "x = c * d")
    case True
    with d show ?thesis
      by (simp add: round_half_even_def Let_def)
  next
    case False
    with xc have "x < c * d"
      by simp
    with d have "x div d < c"
      by (simp add: div_less_iff_less_mult)
    then show ?thesis
      by (simp add: round_half_even_def Let_def)
  qed
qed

lemma round_half_even_mono:
  assumes d: "0 < d" and xy: "x \<le> y"
  shows "round_half_even x d \<le> round_half_even y d"
proof (cases "x div d = y div d")
  case True
  from xy have "x - x div d * d \<le> y - x div d * d"
    by (rule diff_le_mono)
  then have "x mod d \<le> y mod d"
    by (metis True minus_div_mult_eq_mod)
  with True show ?thesis
    by (auto simp: round_half_even_def Let_def)
next
  case False
  with xy have "x div d < y div d"
    by (simp add: div_le_mono le_neq_implies_less)
  moreover have "round_half_even x d \<le> x div d + 1"
    by (simp add: round_half_even_def Let_def)
  moreover have "y div d \<le> round_half_even y d"
    by (simp add: round_half_even_def Let_def)
  ultimately show ?thesis
    by linarith
qed

lemma find_shift_antimono:
  assumes "a \<le> a'"
  shows "find_shift a' b 0 \<le> find_shift a b 0"
proof (rule ccontr)
  assume "\<not> find_shift a' b 0 \<le> find_shift a b 0"
  then have less: "find_shift a b 0 < find_shift a' b 0"
    by simp
  moreover have "find_shift a' b 0 \<le> 1022"
    by (simp add: find_shift_le)
  ultimately have "find_shift a b 0 < 1022"
    by simp
  then have "b \<le> a * 2 ^ find_shift a b 0"
    by (rule find_shift_reached)
  also from assms have "\<dots> \<le> a' * 2 ^ find_shift a b 0"
    by simp
  finally have "b \<le> a' * 2 ^ find_shift a b 0" .
  moreover from less have "a' * 2 ^ find_shift a b 0 < b"
    by (intro find_shift_least [where k = 0]) simp_all
  ultimately show False
    by simp
qed

lemma py_truediv_small:
  "0 < a \<Longrightarrow> a \<le> b \<Longrightarrow>
   py_truediv a b =
     of_nat (round_half_even (a * 2 ^ (52 + find_shift a b 0)) b) / 2 ^ (52 + find_shift a b 0)"
  by (auto simp: py_truediv_def Let_def)

lemma py_truediv_self: "0 < n \<Longrightarrow> py_truediv n n = 1"
proof -
  assume n: "0 < n"
  have "find_shift n n 0 = 0"
    by (subst find_shift.simps) simp
  moreover from n have "round_half_even (n * 2 ^ 52) n = 2 ^ 52"
    by (simp add: round_half_even_def Let_def)
  ultimately show ?thesis
    using n by (simp add: py_truediv_small)
qed

lemma py_truediv_mono:
  assumes a: "0 < a" and le: "a \<le> a'" and b: "a' \<le> b"
  shows "py_truediv a b \<le> py_truediv a' b"
proof -
  let ?k = "find_shift a b 0" and ?k' = "find_shift a' b 0"
  let ?m = "round_half_even (a * 2 ^ (52 + ?k)) b"
  let ?m' = "round_half_even (a' * 2 ^ (52 + ?k')) b"
  from a le b have pos: "0 < b" "0 < a'" "a \<le> b"
    by simp_all
  have vals: "py_truediv a b = of_nat ?m / 2 ^ (52 + ?k)"
    "py_truediv a' b = of_nat ?m' / 2 ^ (52 + ?k')"
    using a pos b by (simp_all add: py_truediv_small)
  from le have kk: "?k' \<le> ?k"
    by (rule find_shift_antimono)
  show ?thesis
  proof (cases "?k' = ?k")
    case True
    from le have "a * 2 ^ (52 + ?k) \<le> a' * 2 ^ (52 + ?k)"
      by simp
    with pos have "?m \<le> round_half_even (a' * 2 ^ (52 + ?k)) b"
      by (simp add: round_half_even_mono)
    then have "(of_nat ?m :: rat) \<le> of_nat (round_half_even (a' * 2 ^ (52 + ?k)) b)"
      by (rule of_nat_mono)
    then have "(of_nat ?m :: rat) / 2 ^ (52 + ?k)
        \<le> of_nat (round_half_even (a' * 2 ^ (52 + ?k)) b) / 2 ^ (52 + ?k)"
      by (simp add: divide_right_mono)
    with True show ?thesis
      by (simp only: vals)
  next
    case False
    with kk obtain j where j: "?k = ?k' + Suc j"
      by (metis add_Suc_right le_neq_implies_less less_imp_Suc_add)
    have "?k - 1 < ?k"
      using j by simp
    then have "a * 2 ^ (?k - 1) < b"
      by (intro find_shift_least [where k = 0]) simp_all
    then have "a * 2 ^ (?k - 1) \<le> b"
      by simp
    then have "a * 2 ^ (?k - 1) * 2 ^ 53 \<le> b * 2 ^ 53"
      by (rule mult_le_mono1)
    moreover have "a * 2 ^ (52 + ?k) = a * 2 ^ (?k - 1) * 2 ^ 53"
    proof -
      from j have "52 + ?k = (?k - 1) + 53"
        by simp
      then have "(2::nat) ^ (52 + ?k) = 2 ^ (?k - 1) * 2 ^ 53"
        by (simp only: power_add)
      then show ?thesis
        by (simp only: mult.assoc)
    qed
    ultimately have "a * 2 ^ (52 + ?k) \<le> b * 2 ^ 53"
      by (simp only:)
    then have "a * 2 ^ (52 + ?k) \<le> 2 ^ 53 * b"
      by (simp only: mult.commute)
    with pos(1) have upper: "?m \<le> 2 ^ 53"
      by (rule round_half_even_upper)
    have "?k \<le> 1022"
      by (simp add: find_shift_le)
    with j have "?k' < 1022"
      by simp
    then have "b \<le> a' * 2 ^ ?k'"
      by (rule find_shift_reached)
    then have "2 ^ 52 * b \<le> 2 ^ 52 * (a' * 2 ^ ?k')"
      by simp
    also have "\<dots> = a' * 2 ^ (52 + ?k')"
      by (simp add: power_add)
    finally have lower: "2 ^ 52 \<le> ?m'"
      using pos by (simp add: round_half_even_lower)
    have "(2::nat) \<le> 2 ^ Suc j"
      by simp
    with lower have "2 ^ 52 * 2 \<le> ?m' * 2 ^ Suc j"
      by (rule mult_le_mono)
    moreover have "?m \<le> 2 ^ 52 * 2"
      using upper by simp
    ultimately have "?m \<le> ?m' * 2 ^ Suc j"
      by (rule order_trans [rotated])
    then have "(of_nat ?m :: rat) \<le> of_nat (?m' * 2 ^ Suc j)"
      by (rule of_nat_mono)
    then have "(of_nat ?m :: rat) \<le> of_nat ?m' * 2 ^ Suc j"
      by simp
    then have "(of_nat ?m :: rat) / 2 ^ Suc j \<le> of_nat ?m'"
      by (simp add: pos_divide_le_eq)
    then have "(of_nat ?m :: rat) / 2 ^ Suc j / 2 ^ (52 + ?k') \<le> of_nat ?m' / 2 ^ (52 + ?k')"
      by (rule divide_right_mono) simp
    moreover have "(2::rat) ^ (52 + ?k) = 2 ^ Suc j * 2 ^ (52 + ?k')"
      by (simp only: j power_add [symmetric]) (simp add: add_ac)
    ultimately have "(of_nat ?m :: rat) / 2 ^ (52 + ?k) \<le> of_nat ?m' / 2 ^ (52 + ?k')"
      by (simp only: divide_divide_eq_left)
    then show ?thesis
      by (simp only: vals)
  qed
qed

lemma round_half_even_error:
  assumes "0 < d"
  shows "\<bar>(of_nat (round_half_even x d) :: rat) - of_nat x / of_nat d\<bar> \<le> 1 / 2"
proof -
  let ?q = "x div d" and ?r = "x mod d"
  have x: "(of_nat x :: rat) = of_nat ?q * of_nat d + of_nat ?r"
    by (metis div_mult_mod_eq of_nat_add of_nat_mult)
  from assms have d: "(0::rat) < of_nat d"
    by simp
  have frac: "(of_nat x :: rat) / of_nat d = of_nat ?q + of_nat ?r / of_nat d"
    using d by (simp add: x add_divide_distrib)
  have r: "(of_nat ?r :: rat) < of_nat d"
    using assms by simp
  show ?thesis
  proof (cases "round_half_even x d = ?q")
    case True
    then have "2 * ?r \<le> d"
      by (auto simp: round_half_even_def Let_def split: if_splits)
    then have "(of_nat (2 * ?r) :: rat) \<le> of_nat d"
      by (rule of_nat_mono)
    then have "(of_nat ?r :: rat) / of_nat d \<le> 1 / 2"
      using d by (simp add: field_simps)
    moreover have "(0::rat) \<le> of_nat ?r / of_nat d"
      by simp
    ultimately show ?thesis
      by (simp add: True frac)
  next
    case False
    then have up: "round_half_even x d = ?q + 1" and "d \<le> 2 * ?r"
      by (auto simp: round_half_even_def Let_def split: if_splits)
    then have "(of_nat d :: rat) \<le> of_nat (2 * ?r)"
      by (simp only: of_nat_mono)
    then have "1 / 2 \<le> (of_nat ?r :: rat) / of_nat d"
      using d by (simp add: field_simps)
    moreover have "(of_nat ?r :: rat) / of_nat d \<le> 1"
      using d r by simp
    ultimately show ?thesis
      by (simp add: up frac)
  qed
qed

lemma py_truediv_error:
  assumes "0 < a" and "a \<le> b"
  shows "\<bar>py_truediv a b - of_nat a / of_nat b\<bar> \<le> 1 / 2 ^ 53"
proof -
  let ?s = "52 + find_shift a b 0"
  let ?m = "round_half_even (a * 2 ^ ?s) b"
  from assms have b: "0 < b"
    by simp
  have "\<bar>(of_nat ?m :: rat) - of_nat (a * 2 ^ ?s) / of_nat b\<bar> \<le> 1 / 2"
    using b by (rule round_half_even_error)
  then have "\<bar>(of_nat ?m :: rat) - of_nat (a * 2 ^ ?s) / of_nat b\<bar> / 2 ^ ?s \<le> 1 / 2 / 2 ^ ?s"
    by (rule divide_right_mono) simp
  moreover have "\<bar>(of_nat ?m :: rat) - of_nat (a * 2 ^ ?s) / of_nat b\<bar> / 2 ^ ?s =
      \<bar>of_nat ?m / 2 ^ ?s - of_nat a / of_nat b\<bar>"
  proof -
    have "(of_nat (a * 2 ^ ?s) :: rat) / of_nat b / 2 ^ ?s = of_nat a / of_nat b"
      by simp
    then have "(of_nat ?m :: rat) / 2 ^ ?s - of_nat a / of_nat b =
        (of_nat ?m - of_nat (a * 2 ^ ?s) / of_nat b) / 2 ^ ?s"
      by (simp only: diff_divide_distrib)
    then show ?thesis
      by (simp only: abs_divide) simp
  qed
  moreover have "(1::rat) / 2 / 2 ^ ?s \<le> 1 / 2 ^ 53"
  proof -
    have "(2::rat) ^ 53 \<le> 2 ^ (Suc ?s)"
      by (rule power_increasing) simp_all
    then have "(1::rat) / 2 ^ (Suc ?s) \<le> 1 / 2 ^ 53"
      by (rule divide_left_mono) simp_all
    moreover have "(1::rat) / 2 / 2 ^ ?s = 1 / 2 ^ (Suc ?s)"
      by (simp only: power_Suc divide_divide_eq_left)
    ultimately show ?thesis
      by (simp only:)
  qed
  ultimately show ?thesis
    using assms by (simp only: py_truediv_small)
qed

lemma three_rows:
  "[1..<Suc (length [lit ''hello'', [], lit ''world''])] = [1, 2, 3]"
  "length [lit ''hello'', [], lit ''world''] = 3"
  "[1..<Suc 3] = [1, 2, 3]"
  by (simp_all add: upt_rec)

lemma three_labels:
  "row_label 1 3 = lit ''Translating row 1/3''"
  "row_label 2 3 = lit ''Translating row 2/3''"
  "row_label 3 3 = lit ''Translating row 3/3''"
  by (simp_all add: row_label_def str_nat.simps lit_def)

lemma three_quotients:
  "py_truediv 1 3 = 6004799503160661 / 18014398509481984"
  "py_truediv 2 3 = 6004799503160661 / 9007199254740992"
  "py_truediv 3 3 = 1"
  by (simp_all add: py_truediv_def find_shift.simps round_half_even_def Let_def)

lemma three_reports:
  "batch_reports spanish_provider py_truediv id (lit ''es'')
     [lit ''hello'', [], lit ''world''] env0 =
     [(6004799503160661 / 18014398509481984, lit ''Translating row 1/3''),
      (6004799503160661 / 9007199254740992, lit ''Translating row 2/3''),
      (1, lit ''Translating row 3/3'')]"
proof -
  have "batch_reports spanish_provider py_truediv id (lit ''es'')
     [lit ''hello'', [], lit ''world''] env0 =
     map (\<lambda>i. (py_truediv i 3, row_label i 3)) [1, 2, 3]"
    by (simp only: batch_reports_eq three_rows)
  then show ?thesis
    by (simp only: list.map three_quotients three_labels)
qed

subsection \<open>The progress sequence\<close>

text \<open>
  C6, with the quotient that the program computes.  For a column of \<open>n\<close> rows, the
  reports on the progress bar are, in order, one per row: after row \<open>i\<close> (counted from
  1) the floating-point quotient of \<open>i\<close> by \<open>n\<close> with the label
  \<^verbatim>\<open>Translating row i/n\<close>.  That quotient is within \<open>1 / 2 ^ 53\<close> of the fraction
  \<open>i / n\<close>.  The values never decrease, and the last one is exactly 1.
\<close>

theorem batch_progress_reports:
  "batch_reports P py_truediv str_of dest column e =
     map (\<lambda>i. (py_truediv i (length column), row_label i (length column)))
       [1..<Suc (length column)] \<and>
   (\<forall>i \<in> {1..length column}.
      \<bar>py_truediv i (length column) - of_nat i / of_nat (length column)\<bar> \<le> 1 / 2 ^ 53) \<and>
   sorted (map fst (batch_reports P py_truediv str_of dest column e)) \<and>
   (column \<noteq> [] \<longrightarrow> fst (last (batch_reports P py_truediv str_of dest column e)) = 1)"
proof -
  let ?n = "length column"
  let ?reports = "batch_reports P py_truediv str_of dest column e"
  have reports: "?reports = map (\<lambda>i. (py_truediv i ?n, row_label i ?n)) [1..<Suc ?n]"
    by (rule batch_reports_eq)
  have vals: "map fst ?reports = map (\<lambda>i. py_truediv i ?n) [1..<Suc ?n]"
    by (simp add: reports comp_def)
  have near: "\<forall>i \<in> {1..?n}. \<bar>py_truediv i ?n - of_nat i / of_nat ?n\<bar> \<le> 1 / 2 ^ 53"
  proof
    fix i
    assume "i \<in> {1..?n}"
    then have "0 < i" and "i \<le> ?n"
      by simp_all
    then show "\<bar>py_truediv i ?n - of_nat i / of_nat ?n\<bar> \<le> 1 / 2 ^ 53"
      by (rule py_truediv_error)
  qed
  have "sorted_wrt (\<lambda>a b. py_truediv a ?n \<le> py_truediv b ?n) [1..<Suc ?n]"
  proof (rule sorted_wrt_mono_rel [OF _ sorted_upt])
    fix a b
    assume "a \<in> set [1..<Suc ?n]" and "b \<in> set [1..<Suc ?n]" and "a \<le> b"
    then have "0 < a" and "a \<le> b" and "b \<le> ?n"
      by (simp_all del: upt_Suc)
    then show "py_truediv a ?n \<le> py_truediv b ?n"
      by (rule py_truediv_mono)
  qed
  then have ordered: "sorted (map fst ?reports)"
    by (simp only: vals sorted_map)
  have "fst (last ?reports) = 1" if "column \<noteq> []"
  proof -
    from that have pos: "Suc 0 \<le> ?n"
      by (cases column) simp_all
    then have ne: "[1..<Suc ?n] \<noteq> []"
      by simp
    from pos have "1 < Suc ?n"
      by linarith
    then have "last [1..<Suc ?n] = Suc ?n - 1"
      by (rule last_upt)
    then have "last [1..<Suc ?n] = ?n"
      by simp
    then have "last ?reports = (py_truediv ?n ?n, row_label ?n ?n)"
      by (simp only: reports last_map [OF ne])
    moreover from pos have "py_truediv ?n ?n = 1"
      by (simp add: py_truediv_self Suc_le_eq)
    ultimately show ?thesis
      by simp
  qed
  with reports near ordered show ?thesis
    by blast
qed

theorem batch_progress_reports_witness:
  "batch_reports spanish_provider py_truediv id (lit ''es'')
     [lit ''hello'', [], lit ''world''] env0 =
     [(6004799503160661 / 18014398509481984, lit ''Translating row 1/3''),
      (6004799503160661 / 9007199254740992, lit ''Translating row 2/3''),
      (1, lit ''Translating row 3/3'')] \<and>
   (1::nat) \<in> {1..length [lit ''hello'', [], lit ''world'']} \<and>
   \<bar>py_truediv 1 (length [lit ''hello'', [], lit ''world'']) -
      of_nat 1 / of_nat (length [lit ''hello'', [], lit ''world''])\<bar> \<le> 1 / 2 ^ 53 \<and>
   sorted (map fst (batch_reports spanish_provider py_truediv id (lit ''es'')
     [lit ''hello'', [], lit ''world''] env0)) \<and>
   [lit ''hello'', [], lit ''world''] \<noteq> [] \<and>
   fst (last (batch_reports spanish_provider py_truediv id (lit ''es'')
     [lit ''hello'', [], lit ''world''] env0)) = 1"
proof -
  let ?column = "[lit ''hello'', [], lit ''world'']"
  let ?reports = "batch_reports spanish_provider py_truediv id (lit ''es'') ?column env0"
  note run = batch_progress_reports [of spanish_provider id "lit ''es''" ?column env0]
  have row: "(1::nat) \<in> {1..length ?column}"
    by simp
  have some: "?column \<noteq> []"
    by simp
  from run row have "\<bar>py_truediv 1 (length ?column) - of_nat 1 / of_nat (length ?column)\<bar>
      \<le> 1 / 2 ^ 53"
    by blast
  moreover from run have "sorted (map fst ?reports)"
    by blast
  moreover from run some have "fst (last ?reports) = 1"
    by blast
  ultimately show ?thesis
    using three_reports row some by blast
qed

text \<open>
  After the first of three rows the program reports the double nearest to one third,
  which is not one third.
\<close>

theorem progress_one_third_counterexample:
  "fst (batch_reports spanish_provider py_truediv id (lit ''es'')
          [lit ''hello'', [], lit ''world''] env0 ! 0)
     = 6004799503160661 / 18014398509481984 \<and>
   (6004799503160661 / 18014398509481984 :: rat) \<noteq> 1 / 3"
  by (simp add: three_reports)

subsection \<open>Empty translations\<close>

lemma py_or_nonempty: "d \<noteq> [] \<Longrightarrow> py_or x d \<noteq> []"
  by (simp add: py_or_def split: option.splits)

lemma Error_nonempty: "lit ''Error'' \<noteq> []"
  by (simp add: lit_def)

lemma batch_outcomes_nonempty:
  "[] \<notin> set (fst (translate_column P truediv str_of dest column e))"
proof
  let ?out = "fst (translate_column P truediv str_of dest column e)"
  assume "[] \<in> set ?out"
  then obtain i where i: "i < length ?out" and nth: "?out ! i = []"
    by (auto simp: in_set_conv_nth)
  have "length ?out = length column"
    by (simp add: translate_column_def batch_fold_length)
  with i have "i < length column"
    by simp
  then have "?out ! i \<noteq> []"
    by (simp add: batch_nth py_or_nonempty Error_nonempty)
  with nth show False
    by simp
qed

lemma perform_translation_quiet:
  "fst (fst (perform_translation P text src dest e)) = Some t \<Longrightarrow>
   screen (snd (perform_translation P text src dest e)) = screen e"
  by (auto simp: perform_translation_def try_translation_def call_detect_def
      call_translate_def split: prod.splits sum.splits if_splits)

lemma translate_click_falsy:
  assumes "getitem (lang_codes L) (source_lang s) = Inr src"
    and "getitem (lang_codes L) (target_lang s) = Inr dst"
    and "fst (fst (perform_translation P input_text src dst e)) = Some []"
  shows "translate_click L title P input_text now (s, e) =
           Inr (s, snd (perform_translation P input_text src dst e))"
proof -
  obtain r d e1 where pt: "perform_translation P input_text src dst e = ((r, d), e1)"
    by (metis surj_pair)
  with assms(3) have "r = Some []"
    by simp
  with assms(1,2) pt show ?thesis
    by (simp add: translate_click_def)
qed

lemma translate_click_history:
  assumes "translate_click L title P input_text now (s, e) = Inr (s1, e1)"
  shows "history s1 = history s \<or>
         (\<exists>x. history s1 = history s @ [x] \<and> entry_translated x \<noteq> [])"
  using assms
  by (auto simp: translate_click_def history_append_def Let_def
      split: sum.splits prod.splits option.splits if_splits)

lemma step_history_ok:
  assumes "history_ok (fst se)"
  shows "history_ok (fst (step L title P a se))"
proof -
  obtain s e where se: "se = (s, e)"
    by (cases se)
  with assms have ok: "history_ok s"
    by simp
  show ?thesis
  proof (cases a)
    case (Select_source name)
    with ok show ?thesis
      by (simp add: step_def se history_ok_def)
  next
    case (Select_target name)
    with ok show ?thesis
      by (simp add: step_def se history_ok_def)
  next
    case Click_swap
    with ok show ?thesis
      by (simp add: step_def se history_ok_def swap_languages_def Let_def)
  next
    case (Click_translate input_text now)
    show ?thesis
    proof (cases "translate_click L title P input_text now (s, e)")
      case (Inl err)
      with ok Click_translate show ?thesis
        by (simp add: step_def se)
    next
      case (Inr se1)
      obtain s1 e1 where se1: "se1 = (s1, e1)"
        by (cases se1)
      from translate_click_history [OF Inr [unfolded se1]] ok have "history_ok s1"
        by (auto simp: history_ok_def)
      with Click_translate Inr se1 show ?thesis
        by (simp add: step_def se)
    qed
  next
    case Click_clear
    with ok show ?thesis
      by (simp add: step_def se history_ok_def history_section_def history_clear_def)
  qed
qed

lemma run_session_history_ok:
  "history_ok (fst se) \<Longrightarrow> history_ok (fst (run_session L title P acts se))"
  unfolding run_session_def
  by (induction acts arbitrary: se) (simp_all add: step_history_ok)

text \<open>
  C10.  A translation that is the empty string counts as a failure for both callers.
  In the batch, no element of the list of translations is empty, and a row for which
  \<open>perform_translation\<close> returned the empty string is recorded as \<^verbatim>\<open>"Error"\<close>.  In
  the interactive flow, a click whose translation came back empty leaves the session as
  it was and shows nothing more than \<open>perform_translation\<close> did, which is nothing: no
  success box and no history entry.  And along every sequence of user actions from a
  fresh session, no history entry holds an empty translated text.
\<close>

theorem empty_translation_is_failure:
  "[] \<notin> set (fst (translate_column P truediv str_of dest column e)) \<and>
   (\<forall>i < length column.
      fst (fst (perform_translation P (str_of (column ! i)) (lit ''auto'') dest
                  (snd (batch_after P truediv str_of dest column e i)))) = Some [] \<longrightarrow>
      fst (translate_column P truediv str_of dest column e) ! i = lit ''Error'') \<and>
   (getitem (lang_codes L) (source_lang s) = Inr src \<and>
    getitem (lang_codes L) (target_lang s) = Inr dst \<and>
    fst (fst (perform_translation P input_text src dst e)) = Some [] \<longrightarrow>
      translate_click L title P input_text now (s, e) =
        Inr (s, snd (perform_translation P input_text src dst e)) \<and>
      screen (snd (perform_translation P input_text src dst e)) = screen e) \<and>
   (\<forall>x \<in> set (history (fst (run_session L title P acts (session_init, e)))).
      entry_translated x \<noteq> [])"
proof -
  have "history_ok (fst (session_init, e))"
    by (simp add: history_ok_def session_init_def)
  then have "history_ok (fst (run_session L title P acts (session_init, e)))"
    by (rule run_session_history_ok)
  then show ?thesis
    by (simp add: batch_outcomes_nonempty batch_nth py_or_def translate_click_falsy
        perform_translation_quiet history_ok_def)
qed


theorem empty_translation_is_failure_witness:
  "(0::nat) < length [lit ''hi''] \<and>
   fst (fst (perform_translation silent_provider (id ([lit ''hi''] ! 0)) (lit ''auto'')
               (lit ''ur'')
               (snd (batch_after silent_provider py_truediv id (lit ''ur'') [lit ''hi''] env0 0))))
     = Some [] \<and>
   fst (translate_column silent_provider py_truediv id (lit ''ur'') [lit ''hi''] env0) ! 0
     = lit ''Error'' \<and>
   getitem (lang_codes small_catalog) (source_lang session_init) = Inr (lit ''auto'') \<and>
   getitem (lang_codes small_catalog) (target_lang session_init) = Inr (lit ''ur'') \<and>
   fst (fst (perform_translation silent_provider (lit ''hi'') (lit ''auto'') (lit ''ur'') env0))
     = Some [] \<and>
   translate_click small_catalog id silent_provider (lit ''hi'') (lit ''2024-05-01 10:00:00'')
       (session_init, env0) =
     Inr (session_init,
          snd (perform_translation silent_provider (lit ''hi'') (lit ''auto'') (lit ''ur'') env0)) \<and>
   screen (snd (perform_translation silent_provider (lit ''hi'') (lit ''auto'') (lit ''ur'') env0))
     = [] \<and>
   history (fst (run_session small_catalog id echo_provider
                   [Click_translate (lit ''hi'') (lit ''2024-05-01 10:00:00'')]
                   (session_init, env0))) =
     [\<lparr>entry_original = lit ''hi'', entry_translated = lit ''hi'',
       entry_source = lit ''Automatic Detection'', entry_target = lit ''urdu'',
       entry_timestamp = lit ''2024-05-01 10:00:00''\<rparr>] \<and>
   entry_translated
     \<lparr>entry_original = lit ''hi'', entry_translated = lit ''hi'',
       entry_source = lit ''Automatic Detection'', entry_target = lit ''urdu'',
       entry_timestamp = lit ''2024-05-01 10:00:00''\<rparr> \<noteq> []"
proof -
  let ?now = "lit ''2024-05-01 10:00:00''"
  let ?entry = "\<lparr>entry_original = lit ''hi'', entry_translated = lit ''hi'',
       entry_source = lit ''Automatic Detection'', entry_target = lit ''urdu'',
       entry_timestamp = ?now\<rparr>"
  note silent = empty_translation_is_failure
    [where P = silent_provider and truediv = py_truediv and str_of = id and dest = "lit ''ur''"
       and column = "[lit ''hi'']" and e = env0 and L = small_catalog and s = session_init
       and src = "lit ''auto''" and dst = "lit ''ur''" and input_text = "lit ''hi''"
       and title = id and now = ?now and acts = "[]"]
  note echo = empty_translation_is_failure
    [where P = echo_provider and truediv = py_truediv and str_of = id and dest = "lit ''ur''"
       and column = "[]" and e = env0 and L = small_catalog and s = session_init
       and src = "lit ''auto''" and dst = "lit ''ur''" and input_text = "lit ''hi''"
       and title = id and now = ?now and acts = "[Click_translate (lit ''hi'') ?now]"]
  have row: "fst (fst (perform_translation silent_provider (id ([lit ''hi''] ! 0)) (lit ''auto'')
               (lit ''ur'')
               (snd (batch_after silent_provider py_truediv id (lit ''ur'') [lit ''hi''] env0 0))))
     = Some []"
    using hi_nonblank
    by (simp add: perform_translation_nonblank try_translation_def call_detect_def
        call_translate_def silent_provider_def)
  have src: "getitem (lang_codes small_catalog) (source_lang session_init) = Inr (lit ''auto'')"
    by (simp add: getitem_def lang_codes_def session_init_def)
  have dst: "getitem (lang_codes small_catalog) (target_lang session_init) = Inr (lit ''ur'')"
    by (simp add: getitem_def lang_codes_def name_to_code_def small_catalog_def
        session_init_def lit_def)
  have click: "fst (fst (perform_translation silent_provider (lit ''hi'') (lit ''auto'')
                           (lit ''ur'') env0)) = Some []"
    using hi_nonblank
    by (simp add: perform_translation_nonblank try_translation_def call_detect_def
        call_translate_def silent_provider_def)
  have "perform_translation echo_provider (lit ''hi'') (lit ''auto'') (lit ''ur'') env0 =
      ((Some (lit ''hi''), Some (lit ''en'')),
       env0\<lparr>calls := [Detect (lit ''hi''), Translate (lit ''hi'') (lit ''en'') (lit ''ur'')]\<rparr>)"
    using hi_nonblank
    by (simp add: perform_translation_nonblank try_translation_def call_detect_def
        call_translate_def echo_provider_def env0_def)
  moreover have "lit ''hi'' \<noteq> []"
    by (simp add: lit_def)
  ultimately have ran: "history (fst (run_session small_catalog id echo_provider
                   [Click_translate (lit ''hi'') ?now] (session_init, env0))) = [?entry]"
    using src dst
    by (simp add: run_session_def step_def translate_click_def history_append_def Let_def
        session_init_def)
  from echo have "\<forall>x \<in> set (history (fst (run_session small_catalog id echo_provider
                   [Click_translate (lit ''hi'') ?now] (session_init, env0)))).
                   entry_translated x \<noteq> []"
    by blast
  with ran have kept: "entry_translated ?entry \<noteq> []"
    by simp
  from silent row have "fst (translate_column silent_provider py_truediv id (lit ''ur'')
      [lit ''hi''] env0) ! 0 = lit ''Error''"
    by simp
  moreover from silent src dst click have
    "translate_click small_catalog id silent_provider (lit ''hi'') ?now (session_init, env0) =
       Inr (session_init,
            snd (perform_translation silent_provider (lit ''hi'') (lit ''auto'') (lit ''ur'') env0)) \<and>
     screen (snd (perform_translation silent_provider (lit ''hi'') (lit ''auto'') (lit ''ur'') env0))
       = screen env0"
    by blast
  ultimately show ?thesis
    using row src dst click ran kept by (simp add: env0_def)
qed

end
